theory Spec2Isabelle
  imports Complex_Main
begin

section \<open>Film scanner: settings, queue and application state\<close>

text \<open>
  The application object of \<open>film_scanner.py\<close> (class \<open>FilmScannerApp\<close>) holds the Tk
  variables of the current settings, the scan queue and two flags. The Tk variables are
  modelled by their values; Python floats are modelled by reals (exact arithmetic).
  A queue item is the dictionary that \<open>add_to_queue\<close> builds: the twelve settings and a
  timestamp.
\<close>

datatype py_error =
    ValueError string
  | KeyError string
  | IndexError
  | OSError string
  | ZeroDivisionError
  | DeviceError string
  | Exception string

fun err_str :: "py_error \<Rightarrow> string" where
  "err_str (ValueError m) = m"
| "err_str (KeyError m) = m"
| "err_str IndexError = ''list index out of range''"
| "err_str (OSError m) = m"
| "err_str ZeroDivisionError = ''division by zero''"
| "err_str (DeviceError m) = m"
| "err_str (Exception m) = m"

datatype tk_state = NORMAL | DISABLED

record settings =
  resolution :: int
  color_mode :: string
  file_format :: string
  brightness :: real
  contrast :: real
  exposure :: real
  invert_negative :: bool
  remove_dust :: bool
  rotation_angle :: int
  flip_horizontal :: bool
  flip_vertical :: bool
  auto_detect :: bool

record queue_item = settings +
  timestamp :: string

record app =
  cur :: settings
  output_dir :: string
  auto_increment :: bool
  scan_counter :: int
  scan_queue :: "queue_item list"
  queue_processing :: bool
  queue_paused :: bool
  scanned_images :: "string list"
  scanner :: bool
  process_queue_btn :: tk_state
  pause_queue_btn :: tk_state
  threads_started :: nat

text \<open>
  \<open>scanner\<close> is the truth value of \<open>self.scanner\<close> (a source is open);
  \<open>threads_started\<close> counts the calls of
  \<open>threading.Thread(target=self._process_queue_thread).start()\<close>.
\<close>

subsection \<open>add_to_queue\<close>

text \<open>
  What \<open>add_to_queue\<close> reads from outside the object: whether the output directory
  exists, the operator's answer to the "Create it now?" dialog, whether \<open>os.makedirs\<close>
  succeeds, and the clock.
\<close>

record add_env =
  dir_exists :: bool
  answer_create :: bool
  makedirs_ok :: bool
  now :: string

datatype add_result =
    Invalid_Settings
  | Declined
  | Added
  | Queue_Error

definition make_queue_item :: "settings \<Rightarrow> string \<Rightarrow> queue_item" where
  "make_queue_item c t =
     \<lparr> resolution = resolution c, color_mode = color_mode c, file_format = file_format c,
       brightness = brightness c, contrast = contrast c, exposure = exposure c,
       invert_negative = invert_negative c, remove_dust = remove_dust c,
       rotation_angle = rotation_angle c, flip_horizontal = flip_horizontal c,
       flip_vertical = flip_vertical c, auto_detect = auto_detect c, timestamp = t \<rparr>"

definition update_queue_display :: "app \<Rightarrow> app" where
  "update_queue_display s =
     (if length (scan_queue s) > 0 \<and> \<not> queue_processing s
      then s\<lparr>process_queue_btn := NORMAL\<rparr>
      else s\<lparr>process_queue_btn := (if queue_processing s then DISABLED else NORMAL)\<rparr>)"

definition add_to_queue :: "add_env \<Rightarrow> app \<Rightarrow> add_result \<times> app" where
  "add_to_queue e s =
     (if resolution (cur s) < 75 \<or> resolution (cur s) > 6400 then (Invalid_Settings, s)
      else if \<not> dir_exists e \<and> \<not> answer_create e then (Declined, s)
      else if \<not> dir_exists e \<and> \<not> makedirs_ok e then (Queue_Error, s)
      else (Added,
            update_queue_display
              (s\<lparr>scan_queue := scan_queue s @ [make_queue_item (cur s) (now e)]\<rparr>)))"

subsection \<open>Queue controls\<close>

definition clear_queue :: "bool \<Rightarrow> app \<Rightarrow> app" where
  "clear_queue answer_yes s =
     (if scan_queue s = [] then s
      else if answer_yes then update_queue_display (s\<lparr>scan_queue := []\<rparr>)
      else s)"

definition process_queue :: "bool \<Rightarrow> app \<Rightarrow> app" where
  "process_queue TWAIN_AVAILABLE s =
     (if scan_queue s = [] then s
      else if \<not> TWAIN_AVAILABLE \<or> \<not> scanner s then s
      else s\<lparr>queue_processing := True, queue_paused := False,
             process_queue_btn := DISABLED, pause_queue_btn := NORMAL,
             threads_started := threads_started s + 1\<rparr>)"

definition toggle_pause_queue :: "app \<Rightarrow> app" where
  "toggle_pause_queue s = s\<lparr>queue_paused := \<not> queue_paused s\<rparr>"

text \<open>
  The controls reach \<open>process_queue\<close> and \<open>toggle_pause_queue\<close> only as the
  \<open>command\<close> of a Tk button, and Tk does not run the command of a button whose state is
  \<open>DISABLED\<close>.
\<close>

definition press_process_queue_btn :: "bool \<Rightarrow> app \<Rightarrow> app" where
  "press_process_queue_btn TWAIN_AVAILABLE s =
     (if process_queue_btn s = DISABLED then s else process_queue TWAIN_AVAILABLE s)"

definition press_pause_queue_btn :: "app \<Rightarrow> app" where
  "press_pause_queue_btn s =
     (if pause_queue_btn s = DISABLED then s else toggle_pause_queue s)"

text \<open>
  The events that can reach the object while the worker is inside its loop: the operator's
  controls, and the worker's own removal of the finished head item followed by the
  display update it schedules.
\<close>

datatype gui_event =
    Press_Process
  | Press_Pause
  | Press_Add add_env
  | Press_Clear bool
  | Worker_Popped

fun gui_step :: "bool \<Rightarrow> app \<Rightarrow> gui_event \<Rightarrow> app" where
  "gui_step tw s Press_Process = press_process_queue_btn tw s"
| "gui_step tw s Press_Pause = press_pause_queue_btn s"
| "gui_step tw s (Press_Add e) = snd (add_to_queue e s)"
| "gui_step tw s (Press_Clear a) = clear_queue a s"
| "gui_step tw s Worker_Popped = update_queue_display (s\<lparr>scan_queue := tl (scan_queue s)\<rparr>)"

subsection \<open>generate_filename\<close>

text \<open>
  \<open>f"film_scan_{self.scan_counter:04d}.{ext}"\<close>: the decimal digits of the counter, padded
  with zeros to four characters, the sign counted in the width; longer numbers are not cut.
  \<open>ext_map[...]\<close> raises \<open>KeyError\<close> for a format that is not one of its three keys, before
  the counter is touched.
\<close>

definition digit_char :: "nat \<Rightarrow> char" where
  "digit_char d = char_of (48 + d)"

fun str_nat :: "nat \<Rightarrow> string" where
  "str_nat n = (if n < 10 then [digit_char n] else str_nat (n div 10) @ [digit_char (n mod 10)])"

declare str_nat.simps [simp del]

definition zfill :: "nat \<Rightarrow> string \<Rightarrow> string" where
  "zfill w s = replicate (w - length s) (CHR ''0'') @ s"

definition format_04d :: "int \<Rightarrow> string" where
  "format_04d n =
     (if n < 0 then CHR ''-'' # zfill 3 (str_nat (nat (- n))) else zfill 4 (str_nat (nat n)))"

definition ext_map :: "string \<rightharpoonup> string" where
  "ext_map = [''TIFF'' \<mapsto> ''tif'', ''PNG'' \<mapsto> ''png'', ''JPEG'' \<mapsto> ''jpg'']"

definition generate_filename :: "string \<Rightarrow> app \<Rightarrow> py_error + (string \<times> app)" where
  "generate_filename timestamp_now s =
     (case ext_map (file_format (cur s)) of
        None \<Rightarrow> Inl (KeyError (file_format (cur s)))
      | Some ext \<Rightarrow>
          if auto_increment s
          then Inr (''film_scan_'' @ format_04d (scan_counter s) @ ''.'' @ ext,
                    s\<lparr>scan_counter := scan_counter s + 1\<rparr>)
          else Inr (''film_scan_'' @ timestamp_now @ ''.'' @ ext, s))"

definition path_join :: "string \<Rightarrow> string \<Rightarrow> string" where
  "path_join d f = d @ ''/'' @ f"

text \<open>
  A session of filename generations, each followed by a save that succeeds or fails. A
  successful save appends the path to \<open>scanned_images\<close>; a failed one raises after
  \<open>generate_filename\<close> has returned, the caller reports it, and the next scan goes on from
  the state the failed one left.
\<close>

fun generate_and_save :: "(string \<times> bool) list \<Rightarrow> app \<Rightarrow> py_error + (string list \<times> app)" where
  "generate_and_save [] s = Inr ([], s)"
| "generate_and_save ((ts, save_ok) # rest) s =
     (case generate_filename ts s of
        Inl e \<Rightarrow> Inl e
      | Inr (name, s1) \<Rightarrow>
          (case generate_and_save rest
                  (if save_ok
                   then s1\<lparr>scanned_images := scanned_images s1 @ [path_join (output_dir s1) name]\<rparr>
                   else s1) of
             Inl e \<Rightarrow> Inl e
           | Inr (names, s3) \<Rightarrow> Inr (name # names, s3)))"

text \<open>Reading the number back out of a generated name, to compare names by their counter.\<close>

definition digit_val :: "char \<Rightarrow> nat" where
  "digit_val c = of_char c - 48"

definition int_of_digits :: "string \<Rightarrow> nat" where
  "int_of_digits s = foldl (\<lambda>a c. 10 * a + digit_val c) 0 s"

definition parse_int :: "string \<Rightarrow> int" where
  "parse_int s = (case s of [] \<Rightarrow> 0
      | c # r \<Rightarrow> if c = CHR ''-'' then - int (int_of_digits r) else int (int_of_digits s))"

definition counter_of :: "string \<Rightarrow> int" where
  "counter_of name = parse_int (takeWhile (\<lambda>c. c \<noteq> CHR ''.'') (drop 10 name))"

definition auto_name :: "string \<Rightarrow> int \<Rightarrow> string" where
  "auto_name ext n = ''film_scan_'' @ format_04d n @ ''.'' @ ext"


section \<open>Images and the transform pipeline\<close>

text \<open>
  An image has a mode, a size and its samples, row by row, pixel by pixel, one sample per
  band. The modes are those of the three pixel types the scanner is set to (\<open>TWPT_RGB\<close>,
  \<open>TWPT_GRAY\<close>, \<open>TWPT_BW\<close>): \<open>RGB\<close>, \<open>L\<close> and the bilevel mode \<open>"1"\<close>, whose samples
  are 0 or 255.
\<close>

datatype img_mode = RGB | L | Bilevel

record image =
  mode :: img_mode
  width :: nat
  height :: nat
  pixels :: "nat list list list"

fun bands :: "img_mode \<Rightarrow> nat" where
  "bands RGB = 3"
| "bands L = 1"
| "bands Bilevel = 1"

text \<open>
  The imaging operations belong to Pillow and numpy, not to the program; the program's
  functions take them as parameters. Each may raise.
\<close>

record geometry_lib =
  lib_rotate :: "int \<Rightarrow> image \<Rightarrow> py_error + image"
  lib_mirror :: "image \<Rightarrow> py_error + image"
  lib_flip :: "image \<Rightarrow> py_error + image"

record adjust_lib =
  lib_brightness :: "real \<Rightarrow> image \<Rightarrow> py_error + image"
  lib_contrast :: "real \<Rightarrow> image \<Rightarrow> py_error + image"
  lib_exposure :: "real \<Rightarrow> image \<Rightarrow> py_error + image"
  lib_invert :: "image \<Rightarrow> py_error + image"
  lib_median_filter :: "image \<Rightarrow> py_error + image"

text \<open>
  One guarded statement of a pipeline: when an earlier statement has raised, nothing more
  runs; otherwise the operation runs if its condition holds.
\<close>

definition stage :: "bool \<Rightarrow> (image \<Rightarrow> py_error + image) \<Rightarrow> py_error + image \<Rightarrow> py_error + image" where
  "stage cond f r = (case r of Inl e \<Rightarrow> Inl e | Inr img \<Rightarrow> if cond then f img else Inr img)"

text \<open>
  The body of the \<open>try\<close> in \<open>apply_adjustments\<close>, innermost statement first: brightness,
  contrast, exposure, inversion (for \<open>RGB\<close> and \<open>L\<close> only), despeckle.
\<close>

definition apply_adjustments_try :: "adjust_lib \<Rightarrow> 'a settings_scheme \<Rightarrow> image \<Rightarrow> py_error + image" where
  "apply_adjustments_try adj c im =
     stage (remove_dust c) (lib_median_filter adj)
       (stage (invert_negative c)
          (\<lambda>img. if mode img = RGB then lib_invert adj img
                 else if mode img = L then lib_invert adj img
                 else Inr img)
          (stage (exposure c \<noteq> 0) (lib_exposure adj (1 + exposure c))
             (stage (contrast c \<noteq> 1) (lib_contrast adj (contrast c))
                (stage (brightness c \<noteq> 1) (lib_brightness adj (brightness c))
                   (Inr im)))))"

text \<open>
  \<open>except Exception\<close>: the error is logged, a warning is shown ("Could not apply some
  adjustments ... Using original image.") and the argument is returned.
\<close>

definition apply_adjustments :: "adjust_lib \<Rightarrow> 'a settings_scheme \<Rightarrow> image \<Rightarrow> image" where
  "apply_adjustments adj c im =
     (case apply_adjustments_try adj c im of Inl e \<Rightarrow> im | Inr img \<Rightarrow> img)"

definition apply_all_transforms ::
    "geometry_lib \<Rightarrow> adjust_lib \<Rightarrow> 'a settings_scheme \<Rightarrow> image \<Rightarrow> py_error + image" where
  "apply_all_transforms geo adj c im =
     (case stage (flip_vertical c) (lib_flip geo)
             (stage (flip_horizontal c) (lib_mirror geo)
                (stage (rotation_angle c \<noteq> 0) (lib_rotate geo (- rotation_angle c))
                   (Inr im))) of
        Inl e \<Rightarrow> Inl e
      | Inr img \<Rightarrow> Inr (apply_adjustments adj c img))"

text \<open>The queue's own copy of the pipeline has no \<open>try\<close>.\<close>

definition apply_transforms_from_queue ::
    "geometry_lib \<Rightarrow> adjust_lib \<Rightarrow> 'a settings_scheme \<Rightarrow> image \<Rightarrow> py_error + image" where
  "apply_transforms_from_queue geo adj c im =
     stage (remove_dust c) (lib_median_filter adj)
       (stage (invert_negative c)
          (\<lambda>img. if mode img = RGB \<or> mode img = L then lib_invert adj img else Inr img)
          (stage (exposure c \<noteq> 0) (lib_exposure adj (1 + exposure c))
             (stage (contrast c \<noteq> 1) (lib_contrast adj (contrast c))
                (stage (brightness c \<noteq> 1) (lib_brightness adj (brightness c))
                   (stage (flip_vertical c) (lib_flip geo)
                      (stage (flip_horizontal c) (lib_mirror geo)
                         (stage (rotation_angle c \<noteq> 0) (lib_rotate geo (- rotation_angle c))
                            (Inr im))))))))"

subsection \<open>Pillow's adjustment operations\<close>

text \<open>
  The operations as Pillow and numpy carry them out, with exact arithmetic in place of
  single-precision floats.

  \<open>Image.blend(im1, im2, alpha)\<close> rejects bilevel images, returns a copy of an argument for
  \<open>alpha\<close> 0 or 1, interpolates \<open>im1 + alpha * (im2 - im1)\<close> sample by sample and cuts the
  fraction off; outside \<open>[0, 1]\<close> it clips to 0 and 255.
\<close>

definition blend_sample :: "real \<Rightarrow> nat \<Rightarrow> nat \<Rightarrow> nat" where
  "blend_sample alpha a b =
     (if alpha = 0 then a
      else if alpha = 1 then b
      else if 0 \<le> alpha \<and> alpha \<le> 1 then nat \<lfloor>real a + alpha * (real b - real a)\<rfloor>
      else if real a + alpha * (real b - real a) \<le> 0 then 0
      else if real a + alpha * (real b - real a) \<ge> 255 then 255
      else nat \<lfloor>real a + alpha * (real b - real a)\<rfloor>)"

definition pil_blend :: "image \<Rightarrow> image \<Rightarrow> real \<Rightarrow> py_error + image" where
  "pil_blend im1 im2 alpha =
     (if mode im1 = Bilevel \<or> mode im2 = Bilevel then Inl (ValueError ''image has wrong mode'')
      else if mode im1 \<noteq> mode im2 \<or> width im1 \<noteq> width im2 \<or> height im1 \<noteq> height im2
        then Inl (ValueError ''images do not match'')
      else Inr (im2\<lparr>pixels := map2 (map2 (map2 (blend_sample alpha))) (pixels im1) (pixels im2)\<rparr>))"

text \<open>\<open>Image.new(mode, size, v)\<close> for the mode and size of a given image.\<close>

definition pil_new_like :: "image \<Rightarrow> nat \<Rightarrow> image" where
  "pil_new_like img v = img\<lparr>pixels := map (map (map (\<lambda>_. v))) (pixels img)\<rparr>"

text \<open>\<open>ImageEnhance.Brightness\<close>: the degenerate image is black.\<close>

definition pil_brightness :: "real \<Rightarrow> image \<Rightarrow> py_error + image" where
  "pil_brightness factor img = pil_blend (pil_new_like img 0) img factor"

text \<open>
  \<open>convert("L")\<close>: the ITU-R 601-2 luma of an \<open>RGB\<close> pixel in 16-bit fixed point, 0 or 255
  for a bilevel pixel.
\<close>

fun luma :: "img_mode \<Rightarrow> nat list \<Rightarrow> nat" where
  "luma RGB [r, g, b] = (r * 19595 + g * 38470 + b * 7471 + 32768) div 65536"
| "luma L [v] = v"
| "luma Bilevel [v] = (if v \<noteq> 0 then 255 else 0)"
| "luma m px = 0"

definition pil_grayscale :: "image \<Rightarrow> py_error + image" where
  "pil_grayscale img = Inr (img\<lparr>mode := L, pixels := map (map (\<lambda>px. [luma (mode img) px])) (pixels img)\<rparr>)"

text \<open>
  \<open>ImageEnhance.Contrast\<close>: the degenerate image is filled with the mean luma of the image,
  \<open>int(ImageStat.Stat(image.convert("L")).mean[0] + 0.5)\<close>; an image without pixels makes
  the mean divide by zero.
\<close>

definition luma_values :: "image \<Rightarrow> nat list" where
  "luma_values img = map (luma (mode img)) (concat (pixels img))"

definition pil_mean_luma :: "image \<Rightarrow> nat" where
  "pil_mean_luma img =
     nat \<lfloor>real (sum_list (luma_values img)) / real (length (luma_values img)) + 1 / 2\<rfloor>"

definition pil_contrast :: "real \<Rightarrow> image \<Rightarrow> py_error + image" where
  "pil_contrast factor img =
     (if luma_values img = [] then Inl ZeroDivisionError
      else pil_blend (pil_new_like img (pil_mean_luma img)) img factor)"

text \<open>
  The exposure statements of the source: \<open>np.array(img).astype(np.float32)\<close>, the product
  clipped to \<open>[0, 255]\<close>, cut to \<open>uint8\<close>, and \<open>Image.fromarray\<close>. The array of a bilevel image
  is boolean, so its samples count as 0 and 1 and the result is an \<open>L\<close> image.
\<close>

definition clip_u8 :: "real \<Rightarrow> nat" where
  "clip_u8 x = nat \<lfloor>min 255 (max 0 x)\<rfloor>"

definition np_exposure :: "real \<Rightarrow> image \<Rightarrow> py_error + image" where
  "np_exposure exposure_factor img =
     (if mode img = Bilevel
      then Inr (img\<lparr>mode := L,
                    pixels := map (map (map (\<lambda>v. clip_u8 ((if v \<noteq> 0 then 1 else 0) * exposure_factor))))
                                (pixels img)\<rparr>)
      else Inr (img\<lparr>pixels := map (map (map (\<lambda>v. clip_u8 (real v * exposure_factor)))) (pixels img)\<rparr>))"

definition pil_invert :: "image \<Rightarrow> py_error + image" where
  "pil_invert img = Inr (img\<lparr>pixels := map (map (map (\<lambda>v. 255 - v))) (pixels img)\<rparr>)"

text \<open>
  \<open>ImageFilter.MedianFilter(size=3)\<close>: band by band, the fifth smallest of the nine samples
  around a pixel, the image extended by one pixel on every side with copies of its edge.
\<close>

definition clamp_index :: "int \<Rightarrow> nat \<Rightarrow> nat" where
  "clamp_index i n = nat (max 0 (min (int n - 1) i))"

definition median3x3 :: "image \<Rightarrow> nat \<Rightarrow> nat \<Rightarrow> nat \<Rightarrow> nat" where
  "median3x3 img y x ch =
     sort (concat (map (\<lambda>dy. map (\<lambda>dx.
              pixels img ! clamp_index (int y + dy) (height img)
                         ! clamp_index (int x + dx) (width img) ! ch) [-1, 0, 1]) [-1, 0, 1])) ! 4"

definition pil_median_filter :: "image \<Rightarrow> py_error + image" where
  "pil_median_filter img =
     Inr (img\<lparr>pixels := map (\<lambda>y. map (\<lambda>x. map (median3x3 img y x) [0..<bands (mode img)])
                                      [0..<width img]) [0..<height img]\<rparr>)"

definition pillow :: adjust_lib where
  "pillow = \<lparr> lib_brightness = pil_brightness, lib_contrast = pil_contrast,
               lib_exposure = np_exposure, lib_invert = pil_invert,
               lib_median_filter = pil_median_filter \<rparr>"


section \<open>Frame detection\<close>

text \<open>
  \<open>detect_film_frames\<close>. The grayscale conversion is the library's; the array of the gray
  image has one row of samples per image row. Mean, standard deviation and the two
  10\% thresholds are computed in exact arithmetic. A frame is the tuple
  \<open>(left, top, right, bottom)\<close>.
\<close>

type_synonym frame = "int \<times> int \<times> int \<times> int"

definition np_array :: "image \<Rightarrow> nat list list" where
  "np_array g = map concat (pixels g)"

definition np_mean :: "nat list list \<Rightarrow> real" where
  "np_mean a = (\<Sum>v\<leftarrow>concat a. real v) / real (length (concat a))"

definition np_std :: "nat list list \<Rightarrow> real" where
  "np_std a = sqrt ((\<Sum>v\<leftarrow>concat a. (real v - np_mean a)\<^sup>2) / real (length (concat a)))"

text \<open>\<open>np.sum(binary, axis=0)\<close> for an array of the given number of columns.\<close>

definition col_sums_of :: "bool list list \<Rightarrow> nat \<Rightarrow> nat list" where
  "col_sums_of binary w = map (\<lambda>j. length (filter (\<lambda>row. row ! j) binary)) [0..<w]"

text \<open>\<open>np.sum(binary[:, frame_start:i], axis=1)\<close>.\<close>

definition row_sums_of :: "bool list list \<Rightarrow> nat \<Rightarrow> nat \<Rightarrow> nat list" where
  "row_sums_of binary frame_start i =
     map (\<lambda>row. length (filter (\<lambda>b. b) (take (i - frame_start) (drop frame_start row)))) binary"

record loop_state =
  in_frame :: bool
  frame_start :: nat
  frames :: "frame list"

text \<open>
  The statements under "Found end of frame" for the run \<open>[frame_start, i)\<close>: the frame they
  append, if any.
\<close>

definition end_of_frame :: "bool list list \<Rightarrow> nat \<Rightarrow> nat \<Rightarrow> nat \<Rightarrow> nat \<Rightarrow> frame list" where
  "end_of_frame binary image_width image_height fs i =
     (let frame_width = i - fs in
      if frame_width > 100 then
        (let row_sums = row_sums_of binary fs i;
             row_threshold = real frame_width * (1 / 10);
             rows_with_content =
               filter (\<lambda>r. real (row_sums ! r) > row_threshold) [0..<length row_sums]
         in if length rows_with_content > 100 then
              [(max 0 (int fs - 10),
                max 0 (int (hd rows_with_content) - 10),
                min (int image_width) (int i + 10),
                min (int image_height) (int (last rows_with_content) + 10))]
            else [])
      else [])"

text \<open>One iteration of \<open>for i, col_sum in enumerate(col_sums)\<close>.\<close>

definition column_step ::
    "bool list list \<Rightarrow> real \<Rightarrow> nat \<Rightarrow> nat \<Rightarrow> loop_state \<Rightarrow> nat \<times> nat \<Rightarrow> loop_state" where
  "column_step binary col_threshold image_width image_height st ic =
     (case ic of (i, col_sum) \<Rightarrow>
        if real col_sum > col_threshold \<and> \<not> in_frame st
        then st\<lparr>frame_start := i, in_frame := True\<rparr>
        else if real col_sum \<le> col_threshold \<and> in_frame st
        then st\<lparr>frames := frames st @ end_of_frame binary image_width image_height (frame_start st) i,
                in_frame := False\<rparr>
        else st)"

definition binary_of :: "nat list list \<Rightarrow> bool list list" where
  "binary_of a = map (map (\<lambda>v. real v > np_mean a + np_std a * (1 / 2))) a"

text \<open>
  The threshold test without the square root, for evaluation: with \<open>n\<close> samples of sum
  \<open>S\<close> and sum of squares \<open>Q\<close>, a sample \<open>v\<close> exceeds mean plus half the standard
  deviation exactly when \<open>n v > S\<close> and \<open>4 (n v - S)\<^sup>2 > n Q - S\<^sup>2\<close>.
\<close>

definition above_threshold :: "nat \<Rightarrow> nat \<Rightarrow> nat \<Rightarrow> nat \<Rightarrow> bool" where
  "above_threshold n S Q v =
     (real n * real v > real S
      \<and> 4 * (real n * real v - real S)\<^sup>2 > real n * real Q - (real S)\<^sup>2)"

definition find_frames :: "image \<Rightarrow> image \<Rightarrow> frame list" where
  "find_frames g im =
     (let binary = binary_of (np_array g);
          col_sums = col_sums_of binary (width g);
          col_threshold = real (height g) * (1 / 10)
      in frames (foldl (column_step binary col_threshold (width im) (height im))
                   \<lparr>in_frame = False, frame_start = 0, frames = []\<rparr>
                   (enumerate 0 col_sums)))"

definition detect_film_frames_try :: "(image \<Rightarrow> py_error + image) \<Rightarrow> image \<Rightarrow> py_error + frame list" where
  "detect_film_frames_try grayscale im =
     (case grayscale im of Inl e \<Rightarrow> Inl e | Inr g \<Rightarrow> Inr (find_frames g im))"

text \<open>\<open>except Exception\<close>: the error is printed and the empty list returned.\<close>

definition detect_film_frames :: "(image \<Rightarrow> py_error + image) \<Rightarrow> image \<Rightarrow> frame list" where
  "detect_film_frames grayscale im =
     (case detect_film_frames_try grayscale im of Inl e \<Rightarrow> [] | Inr fs \<Rightarrow> fs)"

section \<open>Scanning from the queue\<close>

text \<open>
  What a scan needs from outside: the device (capabilities set, image transferred and
  opened, or an error), the file system, and the clock. What a saved file contains is not
  modelled, so the crop of a frame leaves no trace here.
\<close>

record world =
  acquire :: "queue_item \<Rightarrow> py_error + image"
  makedirs :: "string \<Rightarrow> py_error option"
  save_file :: "string \<Rightarrow> py_error option"
  clock :: string

text \<open>
  One file: \<open>generate_filename\<close>, \<open>os.makedirs\<close>, \<open>save\<close>, and the path appended to
  \<open>scanned_images\<close>. The state is returned also when a step raises: what ran before the
  error has happened.
\<close>

definition save_one :: "world \<Rightarrow> app \<Rightarrow> py_error option \<times> app" where
  "save_one w s =
     (case generate_filename (clock w) s of
        Inl e \<Rightarrow> (Some e, s)
      | Inr (filename, s1) \<Rightarrow>
          (case makedirs w (output_dir s1) of
             Some e \<Rightarrow> (Some e, s1)
           | None \<Rightarrow>
               (case save_file w (path_join (output_dir s1) filename) of
                  Some e \<Rightarrow> (Some e, s1)
                | None \<Rightarrow>
                    (None, s1\<lparr>scanned_images :=
                                 scanned_images s1 @ [path_join (output_dir s1) filename]\<rparr>))))"

fun save_frames_sync :: "world \<Rightarrow> frame list \<Rightarrow> app \<Rightarrow> py_error option \<times> app" where
  "save_frames_sync w [] s = (None, s)"
| "save_frames_sync w (f # fs) s =
     (case save_one w s of
        (Some e, s1) \<Rightarrow> (Some e, s1)
      | (None, s1) \<Rightarrow> save_frames_sync w fs s1)"

definition do_scan_from_queue ::
    "world \<Rightarrow> geometry_lib \<Rightarrow> adjust_lib \<Rightarrow> (image \<Rightarrow> py_error + image) \<Rightarrow> queue_item \<Rightarrow> app
       \<Rightarrow> py_error option \<times> app" where
  "do_scan_from_queue w geo adj grayscale queue_item s =
     (case (case acquire w queue_item of
              Inl e \<Rightarrow> (Some e, s)
            | Inr image0 \<Rightarrow>
                (case apply_transforms_from_queue geo adj queue_item image0 of
                   Inl e \<Rightarrow> (Some e, s)
                 | Inr im \<Rightarrow>
                     if auto_detect queue_item \<and> detect_film_frames grayscale im \<noteq> []
                     then save_frames_sync w (detect_film_frames grayscale im) s
                     else save_one w s)) of
        (Some e, s') \<Rightarrow> (Some (Exception (''Scan failed: '' @ err_str e)), s')
      | (None, s') \<Rightarrow> (None, s'))"

definition apply_queue_settings :: "queue_item \<Rightarrow> app \<Rightarrow> app" where
  "apply_queue_settings queue_item s =
     s\<lparr>cur := \<lparr> resolution = resolution queue_item, color_mode = color_mode queue_item,
                file_format = file_format queue_item, brightness = brightness queue_item,
                contrast = contrast queue_item, exposure = exposure queue_item,
                invert_negative = invert_negative queue_item,
                remove_dust = remove_dust queue_item,
                rotation_angle = rotation_angle queue_item,
                flip_horizontal = flip_horizontal queue_item,
                flip_vertical = flip_vertical queue_item,
                auto_detect = auto_detect queue_item \<rparr>\<rparr>"

lemma generate_filename_scan_queue:
  "generate_filename ts s = Inr (name, s') \<Longrightarrow> scan_queue s' = scan_queue s"
  by (auto simp: generate_filename_def split: option.splits if_splits)

lemma save_one_scan_queue: "scan_queue (snd (save_one w s)) = scan_queue s"
  by (auto simp: save_one_def split: sum.splits option.splits dest: generate_filename_scan_queue)

lemma save_frames_sync_scan_queue: "scan_queue (snd (save_frames_sync w fs s)) = scan_queue s"
proof (induction fs arbitrary: s)
  case Nil
  show ?case by simp
next
  case (Cons f fs)
  obtain r s1 where r: "save_one w s = (r, s1)" by (cases "save_one w s")
  with save_one_scan_queue [of w s] have "scan_queue s1 = scan_queue s" by simp
  with r Cons.IH [of s1] show ?case by (cases r) simp_all
qed

lemma do_scan_from_queue_scan_queue:
  "scan_queue (snd (do_scan_from_queue w geo adj grayscale queue_item s)) = scan_queue s"
proof -
  have a: "\<And>p. scan_queue (snd p) = scan_queue s \<Longrightarrow>
      scan_queue (snd (case p of (Some e, s') \<Rightarrow> (Some (Exception (''Scan failed: '' @ err_str e)), s')
                       | (None, s') \<Rightarrow> (None, s'))) = scan_queue s"
    by (auto split: prod.splits option.splits)
  show ?thesis
    unfolding do_scan_from_queue_def
    by (rule a) (simp add: save_one_scan_queue save_frames_sync_scan_queue split: sum.splits)
qed

text \<open>
  The loop of \<open>_process_queue_thread\<close>, from one test of its condition to the next. The
  settings of the head item are applied, then the scan runs; on success the head is
  removed and the display updated, on an exception the loop is left. While \<open>queue_paused\<close>
  is set the thread waits for another thread to clear it: alone it never returns, which is
  the result \<open>None\<close>. The result carries the value of \<open>completed\<close>.
\<close>

function process_queue_loop ::
    "world \<Rightarrow> geometry_lib \<Rightarrow> adjust_lib \<Rightarrow> (image \<Rightarrow> py_error + image) \<Rightarrow> nat \<Rightarrow> app
       \<Rightarrow> (nat \<times> py_error option \<times> app) option" where
  "process_queue_loop w geo adj grayscale completed s =
     (if scan_queue s \<noteq> [] \<and> queue_processing s then
        if queue_paused s then None
        else
          (case do_scan_from_queue w geo adj grayscale (hd (scan_queue s))
                  (apply_queue_settings (hd (scan_queue s)) s) of
             (Some e, s2) \<Rightarrow> Some (completed + 1, Some e, s2)
           | (None, s2) \<Rightarrow>
               process_queue_loop w geo adj grayscale (completed + 1)
                 (update_queue_display (s2\<lparr>scan_queue := tl (scan_queue s2)\<rparr>)))
      else Some (completed, None, s))"
  by pat_completeness auto
termination
proof (relation "measure (\<lambda>(w, geo, adj, grayscale, completed, s). length (scan_queue s))")
  show "wf (measure (\<lambda>(w, geo, adj, grayscale, completed, s). length (scan_queue s)))" by simp
next
  fix w geo adj grayscale completed s x y
  assume q: "scan_queue s \<noteq> [] \<and> queue_processing s"
    and y: "(x, y) = do_scan_from_queue w geo adj grayscale (hd (scan_queue s))
                       (apply_queue_settings (hd (scan_queue s)) s)"
  have "scan_queue (snd (do_scan_from_queue w geo adj grayscale (hd (scan_queue s))
                       (apply_queue_settings (hd (scan_queue s)) s))) = scan_queue s"
    by (simp add: do_scan_from_queue_scan_queue apply_queue_settings_def)
  with y have "scan_queue y = scan_queue s" by (metis snd_conv)
  with q show "((w, geo, adj, grayscale, completed + 1,
                 update_queue_display (y\<lparr>scan_queue := tl (scan_queue y)\<rparr>)),
                w, geo, adj, grayscale, completed, s)
               \<in> measure (\<lambda>(w, geo, adj, grayscale, completed, s). length (scan_queue s))"
    by (simp add: update_queue_display_def)
qed

declare process_queue_loop.simps [simp del]

definition queue_complete :: "app \<Rightarrow> app" where
  "queue_complete s =
     update_queue_display
       (s\<lparr>queue_processing := False,
          process_queue_btn := (if scan_queue s \<noteq> [] then NORMAL else DISABLED),
          pause_queue_btn := DISABLED\<rparr>)"

text \<open>
  \<open>_process_queue_thread\<close>: the loop from \<open>completed = 0\<close>, then \<open>queue_processing\<close> is
  cleared and \<open>_queue_complete(completed)\<close> runs. The first component of the result is the
  count it is called with and reports as completed.
\<close>

definition process_queue_thread ::
    "world \<Rightarrow> geometry_lib \<Rightarrow> adjust_lib \<Rightarrow> (image \<Rightarrow> py_error + image) \<Rightarrow> app
       \<Rightarrow> (nat \<times> py_error option \<times> app) option" where
  "process_queue_thread w geo adj grayscale s =
     (case process_queue_loop w geo adj grayscale 0 s of
        None \<Rightarrow> None
      | Some (completed, err, s') \<Rightarrow>
          Some (completed, err, queue_complete (s'\<lparr>queue_processing := False\<rparr>)))"


subsection \<open>Sample data\<close>

definition item0 :: queue_item where
  "item0 = \<lparr> resolution = 2400, color_mode = ''Color'', file_format = ''TIFF'',
       brightness = 1, contrast = 1, exposure = 0,
       invert_negative = False, remove_dust = False,
       rotation_angle = 0, flip_horizontal = False,
       flip_vertical = False, auto_detect = False, timestamp = ''12:00:00'' \<rparr>"

definition app0 :: app where
  "app0 = \<lparr> cur = settings.truncate item0, output_dir = ''Scans'', auto_increment = True,
       scan_counter = 1, scan_queue = [], queue_processing = False, queue_paused = False,
       scanned_images = [], scanner = True, process_queue_btn = NORMAL,
       pause_queue_btn = DISABLED, threads_started = 0 \<rparr>"

text \<open>A geometry library every operation of which raises.\<close>

definition failing_geometry :: geometry_lib where
  "failing_geometry = \<lparr> lib_rotate = (\<lambda>a im. Inl (ValueError ''rotate'')),
       lib_mirror = (\<lambda>im. Inl (ValueError ''mirror'')),
       lib_flip = (\<lambda>im. Inl (ValueError ''flip'')) \<rparr>"

definition bilevel_dot :: image where
  "bilevel_dot = \<lparr> mode = Bilevel, width = 3, height = 3,
       pixels = [[[0], [0], [0]], [[0], [255], [0]], [[0], [0], [0]]] \<rparr>"

definition gray200 :: image where
  "gray200 = \<lparr> mode = L, width = 1, height = 1, pixels = [[[200]]] \<rparr>"

definition job :: "string \<Rightarrow> queue_item" where
  "job t = item0\<lparr>timestamp := t\<rparr>"

text \<open>A device that fails to deliver for the job enqueued at 12:00:02, and a file system that accepts every write.\<close>

definition world_fail2 :: world where
  "world_fail2 = \<lparr> acquire = (\<lambda>q. if timestamp q = ''12:00:02''
                                     then Inl (DeviceError ''no image data'') else Inr gray200),
       makedirs = (\<lambda>d. None), save_file = (\<lambda>f. None), clock = ''20240101_120000'' \<rparr>"

text \<open>A grayscale conversion that raises.\<close>

definition failing_grayscale :: "image \<Rightarrow> py_error + image" where
  "failing_grayscale im = Inl (ValueError ''conversion not supported'')"

text \<open>
  A gray buffer of 200 by 300 pixels: the upper 150 rows black, the lower 150 rows white
  over the full width.
\<close>

definition full_band :: image where
  "full_band = \<lparr> mode = L, width = 200, height = 300,
       pixels = replicate 150 (replicate 200 [0]) @ replicate 150 (replicate 200 [255]) \<rparr>"

text \<open>
  The two-frame scenario: a black gray buffer of 2000 by 1000 pixels with two white
  rectangles of 400 by 600 pixels, at \<open>x\<close> 100 and 1200 and at \<open>y\<close> 200. \<open>mask_row\<close> is the
  row of the bright-pixel mask that crosses the rectangles.
\<close>

definition frame_row :: "nat list list" where
  "frame_row = replicate 100 [0] @ replicate 400 [255] @ replicate 700 [0]
               @ replicate 400 [255] @ replicate 400 [0]"

definition two_frames :: image where
  "two_frames = \<lparr> mode = L, width = 2000, height = 1000,
       pixels = replicate 200 (replicate 2000 [0]) @ replicate 600 frame_row
                @ replicate 200 (replicate 2000 [0]) \<rparr>"

definition mask_row :: "bool list" where
  "mask_row = replicate 100 False @ replicate 400 True @ replicate 700 False
              @ replicate 400 True @ replicate 400 False"



section \<open>The brightness threshold in exact arithmetic\<close>

lemma sum_sq_dev:
  "(\<Sum>v\<leftarrow>xs. (real v - m)\<^sup>2)
   = real (\<Sum>v\<leftarrow>xs. v\<^sup>2) - 2 * m * real (sum_list xs) + real (length xs) * m\<^sup>2"
  by (induction xs) (simp_all add: power2_eq_square algebra_simps)

lemma gt_half_sqrt:
  assumes "0 \<le> y"
  shows "x > sqrt y * (1 / 2) \<longleftrightarrow> x > 0 \<and> 4 * x\<^sup>2 > y"
proof
  assume a: "x > sqrt y * (1 / 2)"
  have "0 \<le> sqrt y" using assms by simp
  with a have x: "x > 0" by linarith
  have "sqrt ((2 * x)\<^sup>2) = \<bar>2 * x\<bar>" by (rule real_sqrt_abs)
  then have s: "sqrt ((2 * x)\<^sup>2) = 2 * x" using x by simp
  from a have "sqrt y < 2 * x" by simp
  then have "sqrt y < sqrt ((2 * x)\<^sup>2)" by (simp only: s)
  then have "y < (2 * x)\<^sup>2" by (simp only: real_sqrt_less_iff)
  also have "(2 * x)\<^sup>2 = 4 * x\<^sup>2" by (simp add: power2_eq_square)
  finally show "x > 0 \<and> 4 * x\<^sup>2 > y" using x by simp
next
  assume a: "x > 0 \<and> 4 * x\<^sup>2 > y"
  have "sqrt ((2 * x)\<^sup>2) = \<bar>2 * x\<bar>" by (rule real_sqrt_abs)
  then have s: "sqrt ((2 * x)\<^sup>2) = 2 * x" using a by simp
  have "(2 * x)\<^sup>2 = 4 * x\<^sup>2" by (simp add: power2_eq_square)
  with a have "y < (2 * x)\<^sup>2" by simp
  then have "sqrt y < sqrt ((2 * x)\<^sup>2)" by (simp only: real_sqrt_less_iff)
  then have "sqrt y < 2 * x" by (simp only: s)
  then show "x > sqrt y * (1 / 2)" by simp
qed

lemma real_sum_list: "(\<Sum>v\<leftarrow>xs. real v) = real (sum_list xs)"
  by (induction xs) simp_all

lemma threshold_exact:
  assumes n: "length (concat a) > 0"
  shows "real v > np_mean a + np_std a * (1 / 2)
         \<longleftrightarrow> above_threshold (length (concat a)) (sum_list (concat a))
               (\<Sum>x\<leftarrow>concat a. x\<^sup>2) v"
proof -
  define N where "N = real (length (concat a))"
  define S where "S = real (sum_list (concat a))"
  define Q where "Q = real (\<Sum>x\<leftarrow>concat a. x\<^sup>2)"
  have N: "N > 0" using n by (simp add: N_def)
  have mean: "np_mean a = S / N"
    by (simp only: np_mean_def S_def N_def real_sum_list)
  have "(\<Sum>x\<leftarrow>concat a. (real x - S / N)\<^sup>2) = Q - 2 * (S / N) * S + N * (S / N)\<^sup>2"
    unfolding Q_def S_def N_def by (rule sum_sq_dev)
  also have "\<dots> = (N * Q - S\<^sup>2) / N"
    using N by (simp add: power2_eq_square field_simps)
  finally have dev: "(\<Sum>x\<leftarrow>concat a. (real x - S / N)\<^sup>2) = (N * Q - S\<^sup>2) / N" .
  have var: "(\<Sum>x\<leftarrow>concat a. (real x - np_mean a)\<^sup>2) / N = (N * Q - S\<^sup>2) / N\<^sup>2"
    unfolding mean dev using N by (simp add: power2_eq_square)
  have var0: "0 \<le> (N * Q - S\<^sup>2) / N\<^sup>2"
    unfolding var [symmetric] using N by (intro divide_nonneg_pos sum_list_nonneg) auto
  have std: "np_std a = sqrt ((N * Q - S\<^sup>2) / N\<^sup>2)"
    unfolding np_std_def using var by (simp add: N_def)
  have "real v > np_mean a + np_std a * (1 / 2)
        \<longleftrightarrow> real v - S / N > sqrt ((N * Q - S\<^sup>2) / N\<^sup>2) * (1 / 2)"
    unfolding mean std by linarith
  also have "\<dots> \<longleftrightarrow> real v - S / N > 0 \<and> 4 * (real v - S / N)\<^sup>2 > (N * Q - S\<^sup>2) / N\<^sup>2"
    using var0 by (rule gt_half_sqrt)
  also have "real v - S / N > 0 \<longleftrightarrow> N * real v > S"
    using N by (simp add: field_simps)
  also have "4 * (real v - S / N)\<^sup>2 > (N * Q - S\<^sup>2) / N\<^sup>2
        \<longleftrightarrow> 4 * (N * real v - S)\<^sup>2 > N * Q - S\<^sup>2"
  proof -
    have "real v - S / N = (N * real v - S) / N" using N by (simp add: field_simps)
    then have "4 * (real v - S / N)\<^sup>2 = (4 * (N * real v - S)\<^sup>2) / N\<^sup>2"
      by (simp add: power_divide)
    moreover have "N\<^sup>2 > 0" using N by simp
    ultimately show ?thesis by (simp add: divide_less_cancel)
  qed
  finally show ?thesis by (simp add: above_threshold_def N_def S_def Q_def)
qed

lemma binary_of_code [code]:
  "binary_of a = map (map (above_threshold (length (concat a)) (sum_list (concat a))
                             (\<Sum>x\<leftarrow>concat a. x\<^sup>2))) a"
proof (cases "concat a = []")
  case True
  then have "\<forall>row\<in>set a. row = []" by simp
  then show ?thesis by (auto simp: binary_of_def)
next
  case False
  then have n: "length (concat a) > 0" by simp
  show ?thesis by (simp only: binary_of_def threshold_exact [OF n])
qed

section \<open>Validation before enqueue\<close>

text \<open>
  C9. A request whose resolution is below 75 or above 6400 DPI is answered with the
  "Invalid Settings" error before anything is appended: the application state, and with
  it the queue, is exactly what it was.
\<close>

theorem add_to_queue_rejects_resolution:
  "resolution (cur s) < 75 \<or> resolution (cur s) > 6400 \<Longrightarrow>
     add_to_queue e s = (Invalid_Settings, s) \<and> scan_queue (snd (add_to_queue e s)) = scan_queue s"
  by (simp add: add_to_queue_def)

theorem add_to_queue_rejects_resolution_witness:
  "(resolution (cur (app0\<lparr>cur := (cur app0)\<lparr>resolution := 9600\<rparr>\<rparr>)) < 75
      \<or> resolution (cur (app0\<lparr>cur := (cur app0)\<lparr>resolution := 9600\<rparr>\<rparr>)) > 6400)
   \<and> add_to_queue \<lparr>dir_exists = True, answer_create = True, makedirs_ok = True, now = ''12:00:01''\<rparr>
        (app0\<lparr>cur := (cur app0)\<lparr>resolution := 9600\<rparr>\<rparr>)
      = (Invalid_Settings, app0\<lparr>cur := (cur app0)\<lparr>resolution := 9600\<rparr>\<rparr>)"
  using add_to_queue_rejects_resolution
    [of "app0\<lparr>cur := (cur app0)\<lparr>resolution := 9600\<rparr>\<rparr>"
        "\<lparr>dir_exists = True, answer_create = True, makedirs_ok = True, now = ''12:00:01''\<rparr>"]
  by (simp add: app0_def item0_def settings.truncate_def)

section \<open>Single worker\<close>

lemma gui_step_running:
  assumes "queue_processing s" and "process_queue_btn s = DISABLED"
  shows "queue_processing (gui_step tw s ev) \<and> process_queue_btn (gui_step tw s ev) = DISABLED
         \<and> threads_started (gui_step tw s ev) = threads_started s"
  using assms
  by (cases ev)
     (simp_all add: press_process_queue_btn_def press_pause_queue_btn_def toggle_pause_queue_def
        add_to_queue_def clear_queue_def update_queue_display_def)

lemma gui_steps_running:
  assumes "queue_processing s" and "process_queue_btn s = DISABLED"
  shows "queue_processing (foldl (gui_step tw) s evs)
         \<and> process_queue_btn (foldl (gui_step tw) s evs) = DISABLED
         \<and> threads_started (foldl (gui_step tw) s evs) = threads_started s"
  using assms
proof (induction evs arbitrary: s)
  case Nil
  then show ?case by simp
next
  case (Cons ev evs)
  from gui_step_running [OF Cons.prems, of tw ev] Cons.IH [of "gui_step tw s ev"]
  show ?case by simp
qed

text \<open>
  C3, as stated, fails on \<open>process_queue\<close> itself: the function tests the queue and the
  scanner, never \<open>queue_processing\<close>, so a second call while the first worker runs starts a
  second thread.
\<close>

theorem process_queue_twice_counterexample:
  "queue_processing (process_queue True (app0\<lparr>scan_queue := [item0]\<rparr>))
   \<and> threads_started (process_queue True (process_queue True (app0\<lparr>scan_queue := [item0]\<rparr>))) = 2"
  by (simp add: process_queue_def app0_def)

text \<open>
  C3, amended. The guard is the start button: \<open>process_queue\<close> disables it when it starts
  the worker, and every display update keeps it disabled while \<open>queue_processing\<close> is set.
  After a start that found a non-empty queue and a scanner, no sequence of control events
  (start, pause, add, clear) and worker pops starts another thread: exactly one has been
  started, the queue is still marked as processing and the start button is still disabled.
\<close>

theorem start_button_single_worker:
  assumes "scan_queue s \<noteq> []" and "tw" and "scanner s"
  shows "threads_started (foldl (gui_step tw) (process_queue tw s) evs) = threads_started s + 1
         \<and> queue_processing (foldl (gui_step tw) (process_queue tw s) evs)
         \<and> process_queue_btn (foldl (gui_step tw) (process_queue tw s) evs) = DISABLED"
proof -
  from assms have a: "queue_processing (process_queue tw s)"
    and b: "process_queue_btn (process_queue tw s) = DISABLED"
    and c: "threads_started (process_queue tw s) = threads_started s + 1"
    by (simp_all add: process_queue_def)
  from gui_steps_running [OF a b, of tw evs] c show ?thesis by simp
qed

theorem start_button_single_worker_witness:
  "scan_queue (app0\<lparr>scan_queue := [item0, item0]\<rparr>) \<noteq> [] \<and> scanner (app0\<lparr>scan_queue := [item0, item0]\<rparr>)
   \<and> threads_started (foldl (gui_step True) (process_queue True (app0\<lparr>scan_queue := [item0, item0]\<rparr>))
        [Press_Process, Worker_Popped, Press_Process]) = 1"
proof -
  have q: "scan_queue (app0\<lparr>scan_queue := [item0, item0]\<rparr>) \<noteq> []" by simp
  have sc: "scanner (app0\<lparr>scan_queue := [item0, item0]\<rparr>)" by (simp add: app0_def)
  have "threads_started (app0\<lparr>scan_queue := [item0, item0]\<rparr>) = 0" by (simp add: app0_def)
  with start_button_single_worker [OF q TrueI sc, of "[Press_Process, Worker_Popped, Press_Process]"] q sc
  show ?thesis by simp
qed

section \<open>Filename counter\<close>

lemma of_char_digit_char: "d < 10 \<Longrightarrow> of_char (digit_char d) = (48 + d :: nat)"
  by (simp add: digit_char_def)

lemma digit_val_char: "d < 10 \<Longrightarrow> digit_val (digit_char d) = d"
  by (simp add: digit_val_def of_char_digit_char)

lemma digit_char_not_dot: "d < 10 \<Longrightarrow> digit_char d \<noteq> CHR ''.''"
proof
  assume d: "d < 10" and e: "digit_char d = CHR ''.''"
  have "of_char (digit_char d) = (48 + d :: nat)" using d by (rule of_char_digit_char)
  with e show False by simp
qed

lemma digit_char_not_minus: "d < 10 \<Longrightarrow> digit_char d \<noteq> CHR ''-''"
proof
  assume d: "d < 10" and e: "digit_char d = CHR ''-''"
  have "of_char (digit_char d) = (48 + d :: nat)" using d by (rule of_char_digit_char)
  with e show False by simp
qed

lemma int_of_digits_append: "int_of_digits (s @ [c]) = 10 * int_of_digits s + digit_val c"
  by (simp add: int_of_digits_def)

lemma int_of_digits_str_nat: "int_of_digits (str_nat n) = n"
proof (induction n rule: str_nat.induct)
  case (1 n)
  show ?case
  proof (cases "n < 10")
    case True
    then show ?thesis by (simp add: str_nat.simps[of n] int_of_digits_def digit_val_char)
  next
    case False
    then show ?thesis using 1
      by (simp add: str_nat.simps[of n] int_of_digits_append digit_val_char)
  qed
qed

lemma str_nat_chars: "c \<in> set (str_nat n) \<Longrightarrow> c \<noteq> CHR ''.'' \<and> c \<noteq> CHR ''-''"
proof (induction n rule: str_nat.induct)
  case (1 n)
  show ?case
  proof (cases "n < 10")
    case True
    with 1(2) show ?thesis
      by (simp add: str_nat.simps[of n] digit_char_not_dot digit_char_not_minus)
  next
    case False
    with 1 show ?thesis
      by (auto simp: str_nat.simps[of n] digit_char_not_dot digit_char_not_minus)
  qed
qed

lemma str_nat_nonempty: "str_nat n \<noteq> []"
  by (simp add: str_nat.simps[of n])

lemma int_of_digits_zeros: "int_of_digits (replicate k (CHR ''0'') @ s) = int_of_digits s"
proof (induction k)
  case 0
  show ?case by simp
next
  case (Suc k)
  have "foldl (\<lambda>a c. 10 * a + digit_val c) 0 (CHR ''0'' # replicate k (CHR ''0'') @ s)
        = foldl (\<lambda>a c. 10 * a + digit_val c) 0 (replicate k (CHR ''0'') @ s)"
    by (simp add: digit_val_def)
  with Suc show ?case by (simp add: int_of_digits_def)
qed

lemma zfill_chars: "c \<in> set (zfill w (str_nat n)) \<Longrightarrow> c \<noteq> CHR ''.'' \<and> c \<noteq> CHR ''-''"
  using str_nat_chars by (auto simp: zfill_def)

lemma zfill_nonempty: "zfill w (str_nat n) \<noteq> []"
  by (simp add: zfill_def str_nat_nonempty)

lemma parse_int_format: "parse_int (format_04d n) = n"
proof (cases "n < 0")
  case True
  then show ?thesis
    by (simp add: format_04d_def parse_int_def zfill_def int_of_digits_zeros int_of_digits_str_nat)
next
  case False
  obtain c r where cr: "zfill 4 (str_nat (nat n)) = c # r"
    using zfill_nonempty by (cases "zfill 4 (str_nat (nat n))") auto
  then have "c \<in> set (zfill 4 (str_nat (nat n)))" by simp
  then have "c \<noteq> CHR ''-''" using zfill_chars by blast
  moreover have "int_of_digits (zfill 4 (str_nat (nat n))) = nat n"
    by (simp add: zfill_def int_of_digits_zeros int_of_digits_str_nat)
  ultimately show ?thesis using False cr
    by (simp add: format_04d_def parse_int_def)
qed

lemma format_04d_no_dot: "c \<in> set (format_04d n) \<Longrightarrow> c \<noteq> CHR ''.''"
  using zfill_chars by (auto simp: format_04d_def split: if_splits)

lemma counter_of_name: "counter_of (auto_name ext n) = n"
proof -
  have "takeWhile (\<lambda>c. c \<noteq> CHR ''.'') (format_04d n @ ''.'' @ ext) = format_04d n"
    using format_04d_no_dot by (simp add: takeWhile_append2)
  then show ?thesis by (simp add: counter_of_def auto_name_def parse_int_format)
qed


lemma generate_filename_auto:
  assumes "auto_increment s" and "ext_map (file_format (cur s)) = Some ext"
  shows "generate_filename ts s
         = Inr (auto_name ext (scan_counter s), s\<lparr>scan_counter := scan_counter s + 1\<rparr>)"
  using assms by (simp add: generate_filename_def auto_name_def)

lemma generate_filename_never_decrements:
  "generate_filename ts s = Inr (name, s') \<Longrightarrow> scan_counter s \<le> scan_counter s'"
  by (auto simp: generate_filename_def split: option.splits if_splits)

lemma generate_and_save_names:
  assumes "auto_increment s" and "ext_map (file_format (cur s)) = Some ext"
  shows "\<exists>s'. generate_and_save steps s
           = Inr (map (\<lambda>i. auto_name ext (scan_counter s + int i)) [0..<length steps], s')
         \<and> scan_counter s' = scan_counter s + int (length steps)"
  using assms
proof (induction steps arbitrary: s)
  case Nil
  then show ?case by simp
next
  case (Cons st steps)
  obtain ts ok where st: "st = (ts, ok)" by (cases st)
  define s1 where "s1 = s\<lparr>scan_counter := scan_counter s + 1\<rparr>"
  define s2 where "s2 = (if ok
      then s1\<lparr>scanned_images := scanned_images s1 @ [path_join (output_dir s1) (auto_name ext (scan_counter s))]\<rparr>
      else s1)"
  have g: "generate_filename ts s = Inr (auto_name ext (scan_counter s), s1)"
    unfolding s1_def using Cons.prems by (rule generate_filename_auto)
  have p: "auto_increment s2" "ext_map (file_format (cur s2)) = Some ext"
    and c2: "scan_counter s2 = scan_counter s + 1"
    using Cons.prems by (simp_all add: s2_def s1_def)
  from Cons.IH [OF p] obtain s' where
    r: "generate_and_save steps s2
        = Inr (map (\<lambda>i. auto_name ext (scan_counter s2 + int i)) [0..<length steps], s')"
    and c': "scan_counter s' = scan_counter s2 + int (length steps)"
    by blast
  have m: "auto_name ext (scan_counter s) # map (\<lambda>i. auto_name ext (scan_counter s2 + int i)) [0..<length steps]
        = map (\<lambda>i. auto_name ext (scan_counter s + int i)) [0..<length (st # steps)]"
  proof -
    have "[0..<Suc (length steps)] = 0 # map Suc [0..<length steps]"
      by (simp add: upt_conv_Cons map_Suc_upt del: upt_Suc)
    then have "map (\<lambda>i. auto_name ext (scan_counter s + int i)) [0..<length (st # steps)]
        = map (\<lambda>i. auto_name ext (scan_counter s + int i)) (0 # map Suc [0..<length steps])"
      by (simp del: upt_Suc)
    then show ?thesis by (simp add: c2 ac_simps del: upt_Suc)
  qed
  have "generate_and_save (st # steps) s
        = Inr (auto_name ext (scan_counter s) # map (\<lambda>i. auto_name ext (scan_counter s2 + int i)) [0..<length steps], s')"
    using g r by (simp add: st s2_def)
  with m c' c2 show ?case by simp
qed

text \<open>
  C8. With auto-increment on and a file format that \<open>ext_map\<close> knows, \<open>N\<close> generations,
  each followed by a save that succeeds or fails, return \<open>N\<close> names: the \<open>i\<close>-th carries the
  counter's start value plus \<open>i\<close>, the numbers in the names increase strictly, the names
  are pairwise distinct, and the counter ends \<open>N\<close> higher, whatever the saves did.
\<close>

theorem generate_filename_counter_monotone:
  assumes "auto_increment s" and "ext_map (file_format (cur s)) = Some ext"
  shows "\<exists>names s'. generate_and_save steps s = Inr (names, s')
         \<and> length names = length steps
         \<and> names = map (\<lambda>i. auto_name ext (scan_counter s + int i)) [0..<length steps]
         \<and> map counter_of names = map (\<lambda>i. scan_counter s + int i) [0..<length steps]
         \<and> sorted_wrt (<) (map counter_of names)
         \<and> distinct names
         \<and> scan_counter s' = scan_counter s + int (length steps)"
proof -
  define names where "names = map (\<lambda>i. auto_name ext (scan_counter s + int i)) [0..<length steps]"
  from generate_and_save_names [OF assms, of steps] obtain s' where
    r: "generate_and_save steps s = Inr (names, s')"
    and c: "scan_counter s' = scan_counter s + int (length steps)"
    unfolding names_def by blast
  have cn: "map counter_of names = map (\<lambda>i. scan_counter s + int i) [0..<length steps]"
    by (simp add: names_def counter_of_name)
  have so: "sorted_wrt (<) (map (\<lambda>i. scan_counter s + int i) [0..<length steps])"
    by (simp add: sorted_wrt_map sorted_wrt_upt
          sorted_wrt_mono_rel [where P = "(<)" and xs = "[0..<length steps]"])
  have "distinct (map (\<lambda>i. scan_counter s + int i) [0..<length steps])"
    by (simp add: distinct_map inj_on_def)
  then have "distinct (map counter_of names)" by (simp add: cn)
  then have d: "distinct names" by (simp add: distinct_map)
  have so': "sorted_wrt (<) (map counter_of names)" using so by (simp only: cn)
  have l: "length names = length steps" by (simp add: names_def)
  have nm: "names = map (\<lambda>i. auto_name ext (scan_counter s + int i)) [0..<length steps]"
    by (fact names_def)
  from r l nm cn so' d c show ?thesis by blast
qed

theorem generate_filename_counter_monotone_witness:
  "auto_increment app0 \<and> ext_map (file_format (cur app0)) = Some ''tif''
   \<and> (\<exists>s'. generate_and_save [(''t1'', True), (''t2'', False), (''t3'', True)] app0
         = Inr ([''film_scan_0001.tif'', ''film_scan_0002.tif'', ''film_scan_0003.tif''], s')
       \<and> scan_counter s' = 4)"
proof -
  have a: "auto_increment app0" by (simp add: app0_def)
  have e: "ext_map (file_format (cur app0)) = Some ''tif''"
    by (simp add: app0_def item0_def settings.truncate_def ext_map_def)
  have c: "scan_counter app0 + int (length [(''t1'', True), (''t2'', False), (''t3'', True)]) = 4"
    by (simp add: app0_def)
  have n: "map (\<lambda>i. auto_name ''tif'' (scan_counter app0 + int i))
             [0..<length [(''t1'', True), (''t2'', False), (''t3'', True)]]
           = [''film_scan_0001.tif'', ''film_scan_0002.tif'', ''film_scan_0003.tif'']"
    by code_simp
  from generate_filename_counter_monotone
         [OF a e, of "[(''t1'', True), (''t2'', False), (''t3'', True)]"]
  obtain names s' where
    r: "generate_and_save [(''t1'', True), (''t2'', False), (''t3'', True)] app0 = Inr (names, s')"
    and nm: "names = map (\<lambda>i. auto_name ''tif'' (scan_counter app0 + int i))
                      [0..<length [(''t1'', True), (''t2'', False), (''t3'', True)]]"
    and c': "scan_counter s' = scan_counter app0 + int (length [(''t1'', True), (''t2'', False), (''t3'', True)])"
    by blast
  from nm n have "names = [''film_scan_0001.tif'', ''film_scan_0002.tif'', ''film_scan_0003.tif'']"
    by (rule trans)
  with r c c' a e show ?thesis by (simp only:) blast
qed

section \<open>Transform pipeline\<close>

lemma stage_False [simp]: "stage False f r = r"
  by (simp add: stage_def split: sum.splits)

lemma stage_Inl [simp]: "stage b f (Inl e) = Inl e"
  by (simp add: stage_def)

lemma stage_True_Inr [simp]: "stage True f (Inr im) = f im"
  by (simp add: stage_def)


text \<open>
  C5. With every parameter at its identity value (rotation 0, no flips, brightness 1,
  contrast 1, exposure 0, no inversion, no despeckle) no library operation is called and
  the pipeline returns the buffer it was given, sample for sample: \<open>apply_all_transforms\<close>,
  \<open>apply_adjustments\<close> and the queue's \<open>_apply_transforms_from_queue\<close> alike.
\<close>

theorem apply_all_transforms_identity:
  assumes "rotation_angle c = 0" "\<not> flip_horizontal c" "\<not> flip_vertical c"
    "brightness c = 1" "contrast c = 1" "exposure c = 0"
    "\<not> invert_negative c" "\<not> remove_dust c"
  shows "apply_all_transforms geo adj c im = Inr im
       \<and> apply_adjustments adj c im = im
       \<and> apply_transforms_from_queue geo adj c im = Inr im"
  using assms
  by (simp add: apply_all_transforms_def apply_adjustments_def apply_adjustments_try_def
        apply_transforms_from_queue_def)

theorem apply_all_transforms_identity_witness:
  "rotation_angle item0 = 0 \<and> \<not> flip_horizontal item0 \<and> \<not> flip_vertical item0
   \<and> brightness item0 = 1 \<and> contrast item0 = 1 \<and> exposure item0 = 0
   \<and> \<not> invert_negative item0 \<and> \<not> remove_dust item0
   \<and> apply_all_transforms failing_geometry pillow item0 bilevel_dot = Inr bilevel_dot"
proof -
  have h: "rotation_angle item0 = 0" "\<not> flip_horizontal item0" "\<not> flip_vertical item0"
    "brightness item0 = 1" "contrast item0 = 1" "exposure item0 = 0"
    "\<not> invert_negative item0" "\<not> remove_dust item0"
    by (simp_all add: item0_def)
  from apply_all_transforms_identity [OF h, of failing_geometry pillow bilevel_dot] h
  show ?thesis by simp
qed

section \<open>A failing stage\<close>

text \<open>
  C1, as stated, fails. The adjustments share one \<open>try\<close>: when a stage raises, the handler
  returns the image \<open>apply_adjustments\<close> was called with, so the effect of every other
  stage is lost with it. On a bilevel scan Pillow's contrast enhancer raises (\<open>Image.blend\<close>
  rejects the mode); the despeckle filter alone would have removed the single white pixel,
  but the result is the unfiltered input.
\<close>


theorem failed_stage_drops_all_counterexample:
  "lib_contrast pillow (3/2) bilevel_dot = Inl (ValueError ''image has wrong mode'')
   \<and> lib_median_filter pillow bilevel_dot
       = Inr (bilevel_dot\<lparr>pixels := [[[0], [0], [0]], [[0], [0], [0]], [[0], [0], [0]]]\<rparr>)
   \<and> apply_adjustments pillow (item0\<lparr>contrast := 3/2, remove_dust := True\<rparr>) bilevel_dot
       = bilevel_dot
   \<and> bilevel_dot \<noteq> bilevel_dot\<lparr>pixels := [[[0], [0], [0]], [[0], [0], [0]], [[0], [0], [0]]]\<rparr>"
  by code_simp

text \<open>
  C1, amended. \<open>apply_adjustments\<close> never aborts: when any stage raises it returns its
  argument unchanged (no adjustment is applied), otherwise the result of all enabled
  stages. Inversion of a buffer that is neither \<open>RGB\<close> nor \<open>L\<close> raises nothing: on a bilevel
  buffer that reaches it unchanged, the result is the one with inversion switched off,
  every other stage applied.
\<close>

theorem apply_adjustments_all_or_nothing:
  "(apply_adjustments_try adj c im = Inl e \<longrightarrow> apply_adjustments adj c im = im)
   \<and> (apply_adjustments_try adj c im = Inr img \<longrightarrow> apply_adjustments adj c im = img)
   \<and> (mode im = Bilevel \<and> brightness c = 1 \<and> contrast c = 1 \<and> exposure c = 0
        \<longrightarrow> apply_adjustments adj c im = apply_adjustments adj (c\<lparr>invert_negative := False\<rparr>) im)"
  by (auto simp: apply_adjustments_def apply_adjustments_try_def stage_def split: sum.splits)


theorem apply_adjustments_all_or_nothing_witness:
  "apply_adjustments_try pillow (item0\<lparr>contrast := 3/2, remove_dust := True\<rparr>) bilevel_dot
     = Inl (ValueError ''image has wrong mode'')
   \<and> apply_adjustments pillow (item0\<lparr>contrast := 3/2, remove_dust := True\<rparr>) bilevel_dot
     = bilevel_dot
   \<and> apply_adjustments_try pillow (item0\<lparr>invert_negative := True, remove_dust := True\<rparr>) bilevel_dot
     = Inr (bilevel_dot\<lparr>pixels := [[[0], [0], [0]], [[0], [0], [0]], [[0], [0], [0]]]\<rparr>)
   \<and> apply_adjustments pillow (item0\<lparr>invert_negative := True, remove_dust := True\<rparr>) bilevel_dot
     = bilevel_dot\<lparr>pixels := [[[0], [0], [0]], [[0], [0], [0]], [[0], [0], [0]]]\<rparr>
   \<and> apply_adjustments pillow (item0\<lparr>invert_negative := True, remove_dust := True\<rparr>) bilevel_dot
     = apply_adjustments pillow (item0\<lparr>invert_negative := True, remove_dust := True,
         invert_negative := False\<rparr>) bilevel_dot"
proof -
  let ?c1 = "item0\<lparr>contrast := 3/2, remove_dust := True\<rparr>"
  let ?c2 = "item0\<lparr>invert_negative := True, remove_dust := True\<rparr>"
  let ?blank = "bilevel_dot\<lparr>pixels := [[[0], [0], [0]], [[0], [0], [0]], [[0], [0], [0]]]\<rparr>"
  have h1: "apply_adjustments_try pillow ?c1 bilevel_dot = Inl (ValueError ''image has wrong mode'')"
    by code_simp
  have h2: "apply_adjustments_try pillow ?c2 bilevel_dot = Inr ?blank"
    by code_simp
  have h3: "mode bilevel_dot = Bilevel \<and> brightness ?c2 = 1 \<and> contrast ?c2 = 1 \<and> exposure ?c2 = 0"
    by (simp add: bilevel_dot_def item0_def)
  from apply_adjustments_all_or_nothing
         [of pillow ?c1 bilevel_dot "ValueError ''image has wrong mode''" bilevel_dot] h1
  have a: "apply_adjustments pillow ?c1 bilevel_dot = bilevel_dot" by blast
  from apply_adjustments_all_or_nothing
         [of pillow ?c2 bilevel_dot "ValueError ''image has wrong mode''" ?blank] h2 h3
  have b: "apply_adjustments pillow ?c2 bilevel_dot = ?blank"
    and c: "apply_adjustments pillow ?c2 bilevel_dot
            = apply_adjustments pillow (?c2\<lparr>invert_negative := False\<rparr>) bilevel_dot"
    by blast+
  from h1 a h2 b c show ?thesis by (simp only: simp_thms)
qed

section \<open>Contrast\<close>















section \<open>Queue failure\<close>

lemma process_queue_loop_success:
  assumes "scan_queue s \<noteq> []" and "queue_processing s" and "\<not> queue_paused s"
    and "do_scan_from_queue w geo adj grayscale (hd (scan_queue s))
           (apply_queue_settings (hd (scan_queue s)) s) = (None, s2)"
  shows "process_queue_loop w geo adj grayscale completed s
         = process_queue_loop w geo adj grayscale (completed + 1)
             (update_queue_display (s2\<lparr>scan_queue := tl (scan_queue s2)\<rparr>))"
  using assms by (subst process_queue_loop.simps) simp

lemma process_queue_loop_failure:
  assumes "scan_queue s \<noteq> []" and "queue_processing s" and "\<not> queue_paused s"
    and "do_scan_from_queue w geo adj grayscale (hd (scan_queue s))
           (apply_queue_settings (hd (scan_queue s)) s) = (Some e, s2)"
  shows "process_queue_loop w geo adj grayscale completed s = Some (completed + 1, Some e, s2)"
  using assms by (subst process_queue_loop.simps) simp

text \<open>
  C2 against the code. Three jobs are enqueued and the device fails on the second. The
  worker removes job 1, leaves jobs 2 and 3 in the queue in order and clears
  \<open>queue_processing\<close>, as the claim says; but \<open>completed\<close> is incremented when a job is
  taken up, before its scan, so the count handed to \<open>_queue_complete\<close> and reported as
  "Completed" is 2, not 1.
\<close>

theorem queue_failure_counts_failed_job:
  "process_queue_thread world_fail2 failing_geometry pillow pil_grayscale
        (process_queue True (app0\<lparr>scan_queue := [job ''12:00:01'', job ''12:00:02'', job ''12:00:03'']\<rparr>))
   = Some (2, Some (Exception ''Scan failed: no image data''),
        app0\<lparr>scan_queue := [job ''12:00:02'', job ''12:00:03''], scan_counter := 2,
             scanned_images := [''Scans/film_scan_0001.tif''], pause_queue_btn := DISABLED,
             threads_started := 1\<rparr>)"
proof -
  define s0 where "s0 = process_queue True
      (app0\<lparr>scan_queue := [job ''12:00:01'', job ''12:00:02'', job ''12:00:03'']\<rparr>)"
  define s1 where "s1 = app0\<lparr>scan_queue := [job ''12:00:01'', job ''12:00:02'', job ''12:00:03''],
      queue_processing := True, process_queue_btn := DISABLED, pause_queue_btn := NORMAL,
      threads_started := 1, scan_counter := 2, scanned_images := [''Scans/film_scan_0001.tif'']\<rparr>"
  define s2 where "s2 = update_queue_display (s1\<lparr>scan_queue := tl (scan_queue s1)\<rparr>)"
  have q0: "scan_queue s0 \<noteq> []" "queue_processing s0" "\<not> queue_paused s0"
    unfolding s0_def by code_simp+
  have d0: "do_scan_from_queue world_fail2 failing_geometry pillow pil_grayscale (hd (scan_queue s0))
              (apply_queue_settings (hd (scan_queue s0)) s0) = (None, s1)"
    unfolding s0_def s1_def by code_simp
  have q2: "scan_queue s2 \<noteq> []" "queue_processing s2" "\<not> queue_paused s2"
    unfolding s2_def s1_def by code_simp+
  have d2: "do_scan_from_queue world_fail2 failing_geometry pillow pil_grayscale (hd (scan_queue s2))
              (apply_queue_settings (hd (scan_queue s2)) s2)
            = (Some (Exception ''Scan failed: no image data''), s2)"
    unfolding s2_def s1_def by code_simp
  have e: "queue_complete (s2\<lparr>queue_processing := False\<rparr>)
           = app0\<lparr>scan_queue := [job ''12:00:02'', job ''12:00:03''], scan_counter := 2,
             scanned_images := [''Scans/film_scan_0001.tif''], pause_queue_btn := DISABLED,
             threads_started := 1\<rparr>"
    unfolding s2_def s1_def by code_simp
  have "process_queue_loop world_fail2 failing_geometry pillow pil_grayscale 0 s0
        = process_queue_loop world_fail2 failing_geometry pillow pil_grayscale (0 + 1) s2"
    unfolding s2_def using q0 d0 by (rule process_queue_loop_success)
  also have "\<dots> = Some (0 + 1 + 1, Some (Exception ''Scan failed: no image data''), s2)"
    using q2 d2 by (rule process_queue_loop_failure)
  finally show ?thesis
    unfolding s0_def [symmetric] process_queue_thread_def by (simp add: e)
qed

theorem queue_failure_counts_failed_job_witness:
  "scanner app0
   \<and> (case process_queue_thread world_fail2 failing_geometry pillow pil_grayscale
             (process_queue True
                (app0\<lparr>scan_queue := [job ''12:00:01'', job ''12:00:02'', job ''12:00:03'']\<rparr>)) of
         None \<Rightarrow> False
       | Some (completed, err, s) \<Rightarrow>
           completed = 2 \<and> scan_queue s = [job ''12:00:02'', job ''12:00:03'']
           \<and> \<not> queue_processing s)"
  using queue_failure_counts_failed_job by (simp add: app0_def)

section \<open>The detector never raises\<close>

text \<open>
  C10. \<open>detect_film_frames\<close> returns a list for every image: the frames its body finds,
  or the empty list when anything inside the body raises. In that case the scan that
  called it behaves as with no frame found: it saves the whole buffer as one file.
\<close>

theorem detect_film_frames_total:
  "(detect_film_frames_try grayscale im = Inl e \<longrightarrow> detect_film_frames grayscale im = [])
   \<and> (detect_film_frames_try grayscale im = Inr fs \<longrightarrow> detect_film_frames grayscale im = fs)
   \<and> (acquire w item = Inr image0 \<and> apply_transforms_from_queue geo adj item image0 = Inr im
        \<and> detect_film_frames_try grayscale im = Inl e
      \<longrightarrow> do_scan_from_queue w geo adj grayscale item s
          = (case save_one w s of
               (Some e', s') \<Rightarrow> (Some (Exception (''Scan failed: '' @ err_str e')), s')
             | (None, s') \<Rightarrow> (None, s')))"
  by (simp add: detect_film_frames_def do_scan_from_queue_def)

theorem detect_film_frames_total_witness:
  "detect_film_frames_try failing_grayscale gray200 = Inl (ValueError ''conversion not supported'')
   \<and> detect_film_frames failing_grayscale gray200 = []
   \<and> detect_film_frames_try pil_grayscale gray200 = Inr []
   \<and> detect_film_frames pil_grayscale gray200 = []
   \<and> do_scan_from_queue world_fail2 failing_geometry pillow failing_grayscale
         (item0\<lparr>auto_detect := True\<rparr>) app0
       = (None, app0\<lparr>scan_counter := 2, scanned_images := [''Scans/film_scan_0001.tif'']\<rparr>)"
proof -
  have a: "detect_film_frames_try failing_grayscale gray200 = Inl (ValueError ''conversion not supported'')"
    by (simp add: detect_film_frames_try_def failing_grayscale_def)
  have b: "detect_film_frames_try pil_grayscale gray200 = Inr []"
    by (simp add: detect_film_frames_try_def pil_grayscale_def gray200_def find_frames_def
          np_array_def binary_of_code above_threshold_def col_sums_of_def column_step_def)
  have c: "acquire world_fail2 (item0\<lparr>auto_detect := True\<rparr>) = Inr gray200"
    by (simp add: world_fail2_def item0_def)
  have d: "apply_transforms_from_queue failing_geometry pillow (item0\<lparr>auto_detect := True\<rparr>) gray200
           = Inr gray200"
    by code_simp
  have e: "(case save_one world_fail2 app0 of
               (Some e', s') \<Rightarrow> (Some (Exception (''Scan failed: '' @ err_str e')), s')
             | (None, s') \<Rightarrow> (None, s'))
           = (None, app0\<lparr>scan_counter := 2, scanned_images := [''Scans/film_scan_0001.tif'']\<rparr>)"
    by code_simp
  from detect_film_frames_total [of failing_grayscale gray200 "ValueError ''conversion not supported''" "[]"
         world_fail2 "item0\<lparr>auto_detect := True\<rparr>" gray200 failing_geometry pillow app0] a c d e
  have 1: "detect_film_frames failing_grayscale gray200 = []"
    and 2: "do_scan_from_queue world_fail2 failing_geometry pillow failing_grayscale
         (item0\<lparr>auto_detect := True\<rparr>) app0
       = (None, app0\<lparr>scan_counter := 2, scanned_images := [''Scans/film_scan_0001.tif'']\<rparr>)"
    by simp_all
  from detect_film_frames_total [of pil_grayscale gray200 "ValueError ''x''" "[]"] b
  have 3: "detect_film_frames pil_grayscale gray200 = []" by blast
  from a 1 b 3 2 show ?thesis by (simp only: simp_thms)
qed


section \<open>Frames found by the column scan\<close>

lemma column_step_settles:
  "column_step b thr w h (column_step b thr w h st (k, c)) (k', c) = column_step b thr w h st (k, c)"
  by (simp add: column_step_def)

lemma foldl_same_column:
  "foldl (column_step b thr w h) (column_step b thr w h st (k, c)) (enumerate k' (replicate n c))
   = column_step b thr w h st (k, c)"
  by (induction n arbitrary: k') (simp_all add: column_step_settles)

lemma fold_block:
  assumes "0 < n"
  shows "foldl (column_step b thr w h) st (enumerate k (replicate n c @ rest))
         = foldl (column_step b thr w h) (column_step b thr w h st (k, c)) (enumerate (k + n) rest)"
proof -
  from assms obtain m where n: "n = Suc m" by (cases n) auto
  have "enumerate k (replicate n c @ rest)
        = (k, c) # enumerate (Suc k) (replicate m c) @ enumerate (Suc k + m) rest"
    by (simp add: n enumerate_append_eq)
  then show ?thesis by (simp add: foldl_same_column n)
qed

lemma active_tail:
  "\<forall>c\<in>set run. real c > thr \<Longrightarrow>
     frames (foldl (column_step b thr w h) st (enumerate k run)) = frames st"
proof (induction run arbitrary: st k)
  case Nil
  show ?case by simp
next
  case (Cons c run)
  then have c: "real c > thr" and r: "\<forall>c\<in>set run. real c > thr" by simp_all
  have "frames (column_step b thr w h st (k, c)) = frames st"
    using c by (simp add: column_step_def)
  with Cons.IH [OF r, of "column_step b thr w h st (k, c)" "Suc k"] show ?case by simp
qed

lemma trailing_run_not_emitted:
  assumes "\<forall>c\<in>set run. real c > thr"
  shows "frames (foldl (column_step b thr w h) st (enumerate 0 (pre @ run)))
         = frames (foldl (column_step b thr w h) st (enumerate 0 pre))"
  using active_tail [OF assms] by (simp add: enumerate_append_eq)

lemma np_array_full_band:
  "np_array full_band = replicate 150 (replicate 200 0) @ replicate 150 (replicate 200 255)"
  by (simp add: np_array_def full_band_def)

lemma gray_full_band: "pil_grayscale full_band = Inr full_band"
  by (simp add: pil_grayscale_def full_band_def)

lemma sum_list_concat: "sum_list (concat xss) = (\<Sum>xs\<leftarrow>xss. sum_list xs)"
  for xss :: "nat list list"
  by (induction xss) simp_all

lemma binary_full_band:
  "binary_of (np_array full_band)
   = replicate 150 (replicate 200 False) @ replicate 150 (replicate 200 True)"
  by (simp add: binary_of_code np_array_full_band above_threshold_def sum_list_replicate
        sum_list_concat length_concat map_concat o_def)

lemma map_upt_const: "(\<And>j. j < n \<Longrightarrow> f j = c) \<Longrightarrow> map f [0..<n] = replicate n c"
  by (induction n) (simp_all add: replicate_append_same)

lemma col_sums_full_band:
  "col_sums_of (binary_of (np_array full_band)) 200 = replicate 200 150"
  unfolding col_sums_of_def binary_full_band
  by (rule map_upt_const) (simp add: filter_replicate)


lemma filter_band:
  assumes lo: "\<And>r. r < a \<Longrightarrow> \<not> P r"
    and mid: "\<And>r. a \<le> r \<Longrightarrow> r < a + b \<Longrightarrow> P r"
    and hi: "\<And>r. a + b \<le> r \<Longrightarrow> r < a + b + d \<Longrightarrow> \<not> P r"
  shows "filter P [0..<a + b + d] = [a..<a + b]"
proof -
  have "[0..<a + b + d] = [0..<a + b] @ [a + b..<a + b + d]"
    by (rule upt_add_eq_append) simp
  moreover have "[0..<a + b] = [0..<a] @ [a..<a + b]"
    by (rule upt_add_eq_append) simp
  ultimately have "[0..<a + b + d] = [0..<a] @ [a..<a + b] @ [a + b..<a + b + d]"
    by simp
  moreover have "filter P [0..<a] = []" using lo by (simp add: filter_empty_conv)
  moreover have "filter P [a..<a + b] = [a..<a + b]" using mid by (simp add: filter_id_conv)
  moreover have "filter P [a + b..<a + b + d] = []" using hi by (simp add: filter_empty_conv)
  ultimately show ?thesis by simp
qed

lemma end_of_frame_band:
  assumes rs: "row_sums_of binary fs i = replicate a 0 @ replicate b c @ replicate d 0"
    and w: "i - fs > 100" and b: "b > 100" and c: "real c > real (i - fs) * (1 / 10)"
  shows "end_of_frame binary iw ih fs i
         = [(max 0 (int fs - 10), max 0 (int a - 10),
             min (int iw) (int i + 10), min (int ih) (int (a + b - 1) + 10))]"
proof -
  let ?P = "\<lambda>r. real ((replicate a 0 @ replicate b c @ replicate d 0) ! r) > real (i - fs) * (1 / 10)"
  have len: "length (row_sums_of binary fs i) = a + b + d" by (simp add: rs)
  have "filter ?P [0..<a + b + d] = [a..<a + b]"
  proof (rule filter_band)
    fix r assume "r < a"
    then show "\<not> ?P r" by (simp add: nth_append)
  next
    fix r assume "a \<le> r" "r < a + b"
    then show "?P r" using c by (simp add: nth_append)
  next
    fix r assume "a + b \<le> r" "r < a + b + d"
    then show "\<not> ?P r" by (simp add: nth_append)
  qed
  then have rows: "filter (\<lambda>r. real (row_sums_of binary fs i ! r) > real (i - fs) * (1 / 10))
                     [0..<length (row_sums_of binary fs i)] = [a..<a + b]"
    by (simp add: rs add.assoc)
  have "0 < b" using b by simp
  then have hd: "hd [a..<a + b] = a" and last: "last [a..<a + b] = a + b - 1"
    by simp_all
  show ?thesis
    unfolding end_of_frame_def Let_def rows hd last using w b by simp
qed

lemma row_sums_full_band:
  "row_sums_of (binary_of (np_array full_band)) 0 200
   = replicate 150 0 @ replicate 150 200 @ replicate 0 0"
  by (simp add: row_sums_of_def binary_full_band)

text \<open>
  C4 against the code. A frame is appended only when the loop meets an inactive column
  after a run; nothing closes a run that is still open when the columns end. In the
  banded buffer every one of the 200 columns is active (150 bright pixels against a
  threshold of 30), and the run \<open>[0, 200)\<close> has the width and the 150 active rows that
  would make the frame \<open>(0, 140, 200, 300)\<close>; the detector returns no frame at all.
\<close>

theorem full_width_band_dropped:
  "col_sums_of (binary_of (np_array full_band)) 200 = replicate 200 150
   \<and> end_of_frame (binary_of (np_array full_band)) 200 300 0 200 = [(0, 140, 200, 300)]
   \<and> detect_film_frames pil_grayscale full_band = []"
proof -
  have e: "end_of_frame (binary_of (np_array full_band)) 200 300 0 200 = [(0, 140, 200, 300)]"
    by (simp add: end_of_frame_band [OF row_sums_full_band])
  have "replicate 200 (150::nat) = replicate 200 150 @ []" by simp
  then have "enumerate 0 (replicate 200 (150::nat)) = enumerate 0 (replicate 200 150 @ [])"
    by simp
  then have "foldl (column_step (binary_of (np_array full_band)) (real 300 * (1 / 10)) 200 300)
           \<lparr>in_frame = False, frame_start = 0, frames = []\<rparr> (enumerate 0 (replicate 200 150))
        = column_step (binary_of (np_array full_band)) (real 300 * (1 / 10)) 200 300
           \<lparr>in_frame = False, frame_start = 0, frames = []\<rparr> (0, 150)"
    by (simp only: fold_block [of 200, simplified] enumerate_simps foldl.simps)
  moreover have "width full_band = 200" "height full_band = 300"
    by (simp_all add: full_band_def)
  ultimately have "find_frames full_band full_band = []"
    by (simp add: find_frames_def col_sums_full_band column_step_def)
  then show ?thesis
    by (simp add: col_sums_full_band e detect_film_frames_def detect_film_frames_try_def
          gray_full_band)
qed


lemma gray_two_frames: "pil_grayscale two_frames = Inr two_frames"
  by (simp add: pil_grayscale_def two_frames_def frame_row_def)

lemma np_array_two_frames:
  "np_array two_frames
   = replicate 200 (replicate 2000 0)
     @ replicate 600 (replicate 100 0 @ replicate 400 255 @ replicate 700 0
                      @ replicate 400 255 @ replicate 400 0)
     @ replicate 200 (replicate 2000 0)"
  by (simp add: np_array_def two_frames_def frame_row_def)

lemma binary_two_frames:
  "binary_of (np_array two_frames)
   = replicate 200 (replicate 2000 False) @ replicate 600 mask_row
     @ replicate 200 (replicate 2000 False)"
  by (simp add: binary_of_code np_array_two_frames above_threshold_def sum_list_replicate
        sum_list_concat length_concat map_concat o_def mask_row_def)

lemma fold_block_last:
  assumes "0 < n"
  shows "foldl (column_step b thr w h) st (enumerate k (replicate n c))
         = column_step b thr w h st (k, c)"
  using fold_block [OF assms, of b thr w h st k c "[]"] by simp

lemma mask_row_nth:
  "j < 2000 \<Longrightarrow> mask_row ! j = (100 \<le> j \<and> j < 500 \<or> 1200 \<le> j \<and> j < 1600)"
  by (auto simp: mask_row_def nth_append)

lemma col_sums_two_frames:
  "col_sums_of (binary_of (np_array two_frames)) 2000
   = replicate 100 0 @ replicate 400 600 @ replicate 700 0 @ replicate 400 600 @ replicate 400 0"
proof (rule nth_equalityI)
  show "length (col_sums_of (binary_of (np_array two_frames)) 2000)
        = length (replicate 100 (0::nat) @ replicate 400 600 @ replicate 700 0
                  @ replicate 400 600 @ replicate 400 0)"
    by (simp add: col_sums_of_def)
next
  fix j assume "j < length (col_sums_of (binary_of (np_array two_frames)) 2000)"
  then have j: "j < 2000" by (simp add: col_sums_of_def)
  then have "col_sums_of (binary_of (np_array two_frames)) 2000 ! j
             = (if mask_row ! j then 600 else 0)"
    by (simp add: col_sums_of_def binary_two_frames filter_replicate del: upt_rec_numeral)
  also have "\<dots> = (replicate 100 (0::nat) @ replicate 400 600 @ replicate 700 0
                  @ replicate 400 600 @ replicate 400 0) ! j"
    using j by (auto simp: mask_row_nth nth_append)
  finally show "col_sums_of (binary_of (np_array two_frames)) 2000 ! j
        = (replicate 100 (0::nat) @ replicate 400 600 @ replicate 700 0
                  @ replicate 400 600 @ replicate 400 0) ! j" .
qed

lemma row_sums_first:
  "row_sums_of (binary_of (np_array two_frames)) 100 500
   = replicate 200 0 @ replicate 600 400 @ replicate 200 0"
  by (simp add: row_sums_of_def binary_two_frames mask_row_def)

lemma row_sums_second:
  "row_sums_of (binary_of (np_array two_frames)) 1200 1600
   = replicate 200 0 @ replicate 600 400 @ replicate 200 0"
  by (simp add: row_sums_of_def binary_two_frames mask_row_def)

lemma end_of_frame_first:
  "end_of_frame (binary_of (np_array two_frames)) 2000 1000 100 500 = [(90, 190, 510, 809)]"
proof -
  have "end_of_frame (binary_of (np_array two_frames)) 2000 1000 100 500
         = [(max 0 (int 100 - 10), max 0 (int 200 - 10),
             min (int 2000) (int 500 + 10), min (int 1000) (int (200 + 600 - 1) + 10))]"
    by (rule end_of_frame_band [OF row_sums_first]) simp_all
  then show ?thesis by simp
qed

lemma end_of_frame_second:
  "end_of_frame (binary_of (np_array two_frames)) 2000 1000 1200 1600 = [(1190, 190, 1610, 809)]"
proof -
  have "end_of_frame (binary_of (np_array two_frames)) 2000 1000 1200 1600
         = [(max 0 (int 1200 - 10), max 0 (int 200 - 10),
             min (int 2000) (int 1600 + 10), min (int 1000) (int (200 + 600 - 1) + 10))]"
    by (rule end_of_frame_band [OF row_sums_second]) simp_all
  then show ?thesis by simp
qed

text \<open>
  C7 against the code. The detector returns two regions, left to right, padded by 10 on
  the left, top and right. The bottom is taken from the index of the last active row
  (799), not from the row after it as the right edge is from the column after the run:
  the regions end at 809, one short of the rectangle's box \<open>(100, 200, 500, 800)\<close> padded
  by 10.
\<close>

theorem two_frames_bottom_padding:
  "detect_film_frames pil_grayscale two_frames = [(90, 190, 510, 809), (1190, 190, 1610, 809)]"
proof -
  have wh: "width two_frames = 2000" "height two_frames = 1000"
    by (simp_all add: two_frames_def)
  have "frames (foldl (column_step (binary_of (np_array two_frames)) 100 2000 1000)
           \<lparr>in_frame = False, frame_start = 0, frames = []\<rparr>
           (enumerate 0 (replicate 100 0 @ replicate 400 600 @ replicate 700 0
                         @ replicate 400 600 @ replicate 400 0)))
        = [(90, 190, 510, 809), (1190, 190, 1610, 809)]"
    by (simp add: fold_block fold_block_last column_step_def end_of_frame_first
          end_of_frame_second)
  then have "find_frames two_frames two_frames = [(90, 190, 510, 809), (1190, 190, 1610, 809)]"
    by (simp add: find_frames_def col_sums_two_frames wh)
  then show ?thesis
    by (simp add: detect_film_frames_def detect_film_frames_try_def gray_two_frames)
qed


end
